theory Spec2Isabelle
  imports Main
begin

section \<open>The browser window: storage areas, location, history\<close>

text \<open>
  The hooks talk to three collaborators of the browser: the two \<open>Storage\<close> objects of the
  window, the router's location with its history stack, and the \<open>storage\<close> event channel.
  A \<open>Storage\<close> object is a finite table from keys to strings; \<open>getItem\<close> answers \<open>null\<close>
  (here \<open>None\<close>) for a key that is not in the table.

  Every call on a collaborator is also appended to a log, oldest entry first, together
  with the calls of the two caller-supplied callbacks \<open>forceInit\<close> and \<open>deserialize\<close>, so
  that "no write is issued" and "the callback is not invoked" are statements about the
  log.
\<close>

datatype area = LocalStorage | SessionStorage

datatype history_mode = Push | Replace

datatype effect =
    GetItem area string
  | SetItem area string string
  | RemoveItem area string
  | CallForceInit string
  | CallDeserialize string
  | Navigate "(string \<times> string) list" history_mode

record window =
  stores :: "area \<Rightarrow> string \<rightharpoonup> string"
  pathname :: string
  search :: "(string \<times> string) list"
  back_entries :: "(string \<times> (string \<times> string) list) list"
  log :: "effect list"

definition logged :: "effect \<Rightarrow> window \<Rightarrow> window" where
  "logged e w = w\<lparr>log := log w @ [e]\<rparr>"

definition getItem :: "area \<Rightarrow> string \<Rightarrow> window \<Rightarrow> string option \<times> window" where
  "getItem a k w = (stores w a k, logged (GetItem a k) w)"

definition setItem :: "area \<Rightarrow> string \<Rightarrow> string \<Rightarrow> window \<Rightarrow> window" where
  "setItem a k v w = logged (SetItem a k v) (w\<lparr>stores := (stores w)(a := (stores w a)(k \<mapsto> v))\<rparr>)"

definition removeItem :: "area \<Rightarrow> string \<Rightarrow> window \<Rightarrow> window" where
  "removeItem a k w = logged (RemoveItem a k) (w\<lparr>stores := (stores w)(a := (stores w a)(k := None))\<rparr>)"

text \<open>The removals among the logged effects.\<close>

fun is_remove :: "effect \<Rightarrow> bool" where
  "is_remove (RemoveItem a k) = True"
| "is_remove e = False"

section \<open>The storage hook \<open>useStorage\<close>\<close>

text \<open>
  \<open>StorageProps\<close> with its defaults resolved. \<open>defaultValue\<close> is either a value or a
  zero-argument producer. \<open>deserialize\<close> is the one callback whose exception the hook
  catches, so its result is a sum. The other callbacks (\<open>serialize\<close>, \<open>forceInit\<close>, a
  producer) and the storage itself are taken to return normally, as their types say: the
  hook has no handler around them.
\<close>

datatype exn = SyntaxError | Unsupported | Thrown string

datatype 'v default_value = Plain 'v | Producer "unit \<Rightarrow> 'v"

record 'v StorageProps =
  key :: string
  defaultValue :: "'v default_value"
  storage :: area
  live :: bool
  serialize :: "'v \<Rightarrow> string"
  deserialize :: "string \<Rightarrow> exn + 'v"
  forceInit :: "string \<Rightarrow> bool"

text \<open>\<open>never\<close>, the default of \<open>forceInit\<close>.\<close>

definition never :: "string \<Rightarrow> bool" where
  "never s = False"

fun getDefaultValue :: "'v default_value \<Rightarrow> 'v" where
  "getDefaultValue (Producer f) = f ()"
| "getDefaultValue (Plain v) = v"

text \<open>
  The argument of \<open>initFromStorage\<close>: left out (\<open>undefined\<close>, so that the default
  parameter \<open>storage.getItem(key)\<close> is evaluated), or given as \<open>null\<close> or a string.
\<close>

datatype stored_arg = Omitted | Given "string option"

text \<open>
  \<open>initFromStorage\<close>. The test \<open>valueInLocalStorage && \<dots>\<close> is JavaScript truthiness:
  \<open>null\<close> and the empty string both fail it, before \<open>forceInit\<close> is called.
\<close>

definition initFromStorage :: "'v StorageProps \<Rightarrow> stored_arg \<Rightarrow> window \<Rightarrow> 'v \<times> window" where
  "initFromStorage p arg w =
     (let (valueInLocalStorage, w1) =
            (case arg of Omitted \<Rightarrow> getItem (storage p) (key p) w | Given s \<Rightarrow> (s, w))
      in case valueInLocalStorage of
           None \<Rightarrow> (getDefaultValue (defaultValue p), w1)
         | Some raw \<Rightarrow>
             if raw = [] then (getDefaultValue (defaultValue p), w1)
             else
               let w2 = logged (CallForceInit raw) w1 in
               if forceInit p raw then (getDefaultValue (defaultValue p), w2)
               else
                 let w3 = logged (CallDeserialize raw) w2 in
                 (case deserialize p raw of
                    Inr v \<Rightarrow> (v, w3)
                  | Inl error \<Rightarrow>
                      (getDefaultValue (defaultValue p), removeItem (storage p) (key p) w3)))"

text \<open>
  The state of one hook instance between renders: the \<open>useState\<close> cell, the
  \<open>prevKeyRef\<close> cell, and the dependencies \<open>[key, value, storage]\<close> of the commit effect
  as the last render saw them.
\<close>

record 'v hook =
  val :: 'v
  prevKeyRef :: string
  deps :: "string \<times> 'v \<times> area"

text \<open>The body of the first effect: drop the entry of the previous key, then commit.\<close>

definition commitEffect :: "'v StorageProps \<Rightarrow> 'v hook \<Rightarrow> window \<Rightarrow> 'v hook \<times> window" where
  "commitEffect p h w =
     (let prevKey = prevKeyRef h;
          w1 = (if prevKey \<noteq> key p then removeItem (storage p) prevKey w else w);
          h1 = h\<lparr>prevKeyRef := key p\<rparr>
      in (h1, setItem (storage p) (key p) (serialize p (val h)) w1))"

text \<open>
  The first render: \<open>useState(initFromStorage)\<close> calls the initialiser without an
  argument, \<open>useRef(key)\<close> stores the key, and every effect runs.
\<close>

definition useStorage_mount :: "'v StorageProps \<Rightarrow> window \<Rightarrow> 'v hook \<times> window" where
  "useStorage_mount p w =
     (let (v, w1) = initFromStorage p Omitted w
      in commitEffect p \<lparr>val = v, prevKeyRef = key p, deps = (key p, v, storage p)\<rparr> w1)"

text \<open>
  A later render: the cells keep their contents and the commit effect runs when one of
  its dependencies changed. \<open>fresh\<close> says that the \<open>serialize\<close> function of this render
  is a new function object, which is a changed dependency too.
\<close>

definition useStorage_update :: "bool \<Rightarrow> 'v StorageProps \<Rightarrow> 'v hook \<Rightarrow> window \<Rightarrow> 'v hook \<times> window" where
  "useStorage_update fresh p h w =
     (let d = (key p, val h, storage p);
          h1 = h\<lparr>deps := d\<rparr>
      in if fresh \<or> d \<noteq> deps h then commitEffect p h1 w else (h1, w))"

text \<open>\<open>setValue\<close> with a plain value: the state cell of the next render.\<close>

definition setValue :: "'v \<Rightarrow> 'v hook \<Rightarrow> 'v hook" where
  "setValue v h = h\<lparr>val := v\<rparr>"

text \<open>
  A \<open>storage\<close> event, and the listener \<open>storageChanged\<close> of the second effect. The
  listener is registered only when \<open>live\<close> is set. It compares the event's area with
  \<open>window.localStorage\<close>, whatever \<open>storage\<close> the hook was given.
\<close>

record StorageEvent =
  eventKey :: "string option"
  newValue :: "string option"
  oldValue :: "string option"
  storageArea :: "area option"

definition storageChanged :: "'v StorageProps \<Rightarrow> StorageEvent \<Rightarrow> 'v hook \<Rightarrow> window \<Rightarrow> 'v hook \<times> window" where
  "storageChanged p event h w =
     (if storageArea event \<noteq> Some LocalStorage
         \<or> eventKey event \<noteq> Some (key p)
         \<or> newValue event = Some (serialize p (val h))
      then (h, w)
      else let (v, w1) = initFromStorage p (Given (newValue event)) w in (setValue v h, w1))"

definition dispatchStorageEvent :: "'v StorageProps \<Rightarrow> StorageEvent \<Rightarrow> 'v hook \<Rightarrow> window \<Rightarrow> 'v hook \<times> window" where
  "dispatchStorageEvent p event h w = (if live p then storageChanged p event h w else (h, w))"

section \<open>JSON text\<close>

text \<open>
  The values of the URL hook's type parameter are the values JSON has: \<open>null\<close>, booleans,
  numbers, strings, arrays and objects. Numbers are the integers, strings are over 8-bit
  characters, and an object is the list of its members in the order of the text.

  \<open>JSON_stringify\<close> and \<open>JSON_parse\<close> stand for the platform's \<open>JSON.stringify\<close> and
  \<open>JSON.parse\<close>, which are not code of the repository; they follow the JSON grammar of
  the ECMAScript standard. The parser accepts the JSON grammar with its white space, and throws
  \<open>SyntaxError\<close> on text outside the grammar. Three kinds of JSON text have no value in
  this model and are answered by \<open>Unsupported\<close>: a numeral with a fraction or an exponent,
  an escape \<open>\uXXXX\<close> above \<open>00FF\<close>, and an object that repeats a key. The model does
  not say what the platform makes of such text: where a theorem below depends on the
  outcome of parsing, it asks for a \<open>SyntaxError\<close> or for a parsed value.
\<close>

datatype json =
    JNull
  | JBool bool
  | JNum int
  | JStr string
  | JArr "json list"
  | JObj "(string \<times> json) list"

definition digit_char :: "nat \<Rightarrow> char" where
  "digit_char d = char_of (48 + d)"

function digits :: "nat \<Rightarrow> string" where
  "digits n = (if n < 10 then [digit_char n] else digits (n div 10) @ [digit_char (n mod 10)])"
  by pat_completeness auto
termination
  by (relation "measure id") auto

declare digits.simps [simp del]

definition show_int :: "int \<Rightarrow> string" where
  "show_int i = (if i < 0 then CHR ''-'' # digits (nat (- i)) else digits (nat i))"

definition hex_char :: "nat \<Rightarrow> char" where
  "hex_char d = (if d < 10 then char_of (48 + d) else char_of (87 + d))"

definition escape_char :: "char \<Rightarrow> string" where
  "escape_char c =
     (if c = CHR 0x22 then [CHR 0x5C, CHR 0x22]
      else if c = CHR 0x5C then [CHR 0x5C, CHR 0x5C]
      else if c = CHR 0x08 then [CHR 0x5C, CHR ''b'']
      else if c = CHR 0x0C then [CHR 0x5C, CHR ''f'']
      else if c = CHR 0x0A then [CHR 0x5C, CHR ''n'']
      else if c = CHR 0x0D then [CHR 0x5C, CHR ''r'']
      else if c = CHR 0x09 then [CHR 0x5C, CHR ''t'']
      else if (of_char c :: nat) < 32 then
        [CHR 0x5C, CHR ''u'', CHR ''0'', CHR ''0'', hex_char (of_char c div 16), hex_char (of_char c mod 16)]
      else [c])"

definition quote :: "string \<Rightarrow> string" where
  "quote s = CHR 0x22 # concat (map escape_char s) @ [CHR 0x22]"

fun JSON_stringify :: "json \<Rightarrow> string"
  and stringify_elems :: "json list \<Rightarrow> string"
  and stringify_members :: "(string \<times> json) list \<Rightarrow> string"
where
  "JSON_stringify JNull = ''null''"
| "JSON_stringify (JBool b) = (if b then ''true'' else ''false'')"
| "JSON_stringify (JNum i) = show_int i"
| "JSON_stringify (JStr s) = quote s"
| "JSON_stringify (JArr xs) = CHR ''['' # stringify_elems xs @ '']''"
| "JSON_stringify (JObj ms) = CHR ''{'' # stringify_members ms @ ''}''"
| "stringify_elems [] = []"
| "stringify_elems [x] = JSON_stringify x"
| "stringify_elems (x # y # ys) = JSON_stringify x @ CHR '','' # stringify_elems (y # ys)"
| "stringify_members [] = []"
| "stringify_members [(k, v)] = quote k @ CHR '':'' # JSON_stringify v"
| "stringify_members ((k, v) # m # ms) =
     quote k @ CHR '':'' # JSON_stringify v @ CHR '','' # stringify_members (m # ms)"

definition is_ws :: "char \<Rightarrow> bool" where
  "is_ws c = (c = CHR '' '' \<or> c = CHR 0x09 \<or> c = CHR 0x0A \<or> c = CHR 0x0D)"

definition skip_ws :: "string \<Rightarrow> string" where
  "skip_ws s = dropWhile is_ws s"

definition is_digit :: "char \<Rightarrow> bool" where
  "is_digit c = (48 \<le> (of_char c :: nat) \<and> (of_char c :: nat) \<le> 57)"

definition digits_val :: "string \<Rightarrow> nat" where
  "digits_val ds = foldl (\<lambda>a d. 10 * a + (of_char d - 48)) 0 ds"

definition hex_val :: "char \<Rightarrow> nat option" where
  "hex_val c =
     (let n = (of_char c :: nat)
      in if 48 \<le> n \<and> n \<le> 57 then Some (n - 48)
         else if 97 \<le> n \<and> n \<le> 102 then Some (n - 87)
         else if 65 \<le> n \<and> n \<le> 70 then Some (n - 55)
         else None)"

definition hex4 :: "char \<Rightarrow> char \<Rightarrow> char \<Rightarrow> char \<Rightarrow> nat option" where
  "hex4 a b c d =
     (case (hex_val a, hex_val b, hex_val c, hex_val d) of
        (Some x, Some y, Some z, Some u) \<Rightarrow> Some (((x * 16 + y) * 16 + z) * 16 + u)
      | _ \<Rightarrow> None)"

definition unescape :: "char \<Rightarrow> char option" where
  "unescape e =
     (if e = CHR 0x22 then Some (CHR 0x22)
      else if e = CHR 0x5C then Some (CHR 0x5C)
      else if e = CHR ''/'' then Some (CHR ''/'')
      else if e = CHR ''b'' then Some (CHR 0x08)
      else if e = CHR ''f'' then Some (CHR 0x0C)
      else if e = CHR ''n'' then Some (CHR 0x0A)
      else if e = CHR ''r'' then Some (CHR 0x0D)
      else if e = CHR ''t'' then Some (CHR 0x09)
      else None)"

definition cons_result :: "'a \<Rightarrow> exn + ('a list \<times> string) \<Rightarrow> exn + ('a list \<times> string)" where
  "cons_result x r = (case r of Inl e \<Rightarrow> Inl e | Inr (xs, rest) \<Rightarrow> Inr (x # xs, rest))"

fun parse_chars :: "string \<Rightarrow> exn + (string \<times> string)" where
  "parse_chars [] = Inl SyntaxError"
| "parse_chars (c # cs) =
     (if c = CHR 0x22 then Inr ([], cs)
      else if c = CHR 0x5C then
        (case cs of
           [] \<Rightarrow> Inl SyntaxError
         | e # es \<Rightarrow>
             if e = CHR ''u'' then
               (case es of
                  h1 # h2 # h3 # h4 # rest \<Rightarrow>
                    (case hex4 h1 h2 h3 h4 of
                       None \<Rightarrow> Inl SyntaxError
                     | Some code \<Rightarrow>
                         if code < 256 then cons_result (char_of code) (parse_chars rest)
                         else Inl Unsupported)
                | _ \<Rightarrow> Inl SyntaxError)
             else
               (case unescape e of
                  None \<Rightarrow> Inl SyntaxError
                | Some ch \<Rightarrow> cons_result ch (parse_chars es)))
      else if (of_char c :: nat) < 32 then Inl SyntaxError
      else cons_result c (parse_chars cs))"

definition strip_prefix :: "string \<Rightarrow> string \<Rightarrow> string option" where
  "strip_prefix p s = (if take (length p) s = p then Some (drop (length p) s) else None)"

definition parse_number :: "string \<Rightarrow> exn + (json \<times> string)" where
  "parse_number s =
     (let neg = (s \<noteq> [] \<and> hd s = CHR ''-'');
          s1 = (if neg then tl s else s);
          ds = takeWhile is_digit s1;
          rest = dropWhile is_digit s1
      in if ds = [] then Inl SyntaxError
         else if hd ds = CHR ''0'' \<and> length ds > 1 then Inl SyntaxError
         else if rest \<noteq> [] \<and> hd rest \<in> set ''.eE'' then Inl Unsupported
         else Inr (JNum (if neg then - int (digits_val ds) else int (digits_val ds)), rest))"

definition literal :: "string \<Rightarrow> json \<Rightarrow> string \<Rightarrow> exn + (json \<times> string)" where
  "literal word v s = (case strip_prefix word s of Some r \<Rightarrow> Inr (v, r) | None \<Rightarrow> Inl SyntaxError)"

fun parse_value :: "nat \<Rightarrow> string \<Rightarrow> exn + (json \<times> string)"
  and parse_elems :: "nat \<Rightarrow> string \<Rightarrow> exn + (json list \<times> string)"
  and parse_members :: "nat \<Rightarrow> string \<Rightarrow> exn + ((string \<times> json) list \<times> string)"
where
  "parse_value 0 s = Inl Unsupported"
| "parse_value (Suc n) s =
     (case skip_ws s of
        [] \<Rightarrow> Inl SyntaxError
      | c # cs \<Rightarrow>
          if c = CHR ''n'' then literal ''null'' JNull (c # cs)
          else if c = CHR ''t'' then literal ''true'' (JBool True) (c # cs)
          else if c = CHR ''f'' then literal ''false'' (JBool False) (c # cs)
          else if c = CHR 0x22 then
            (case parse_chars cs of Inl e \<Rightarrow> Inl e | Inr (str, r) \<Rightarrow> Inr (JStr str, r))
          else if c = CHR ''['' then
            (case skip_ws cs of
               [] \<Rightarrow> Inl SyntaxError
             | d # ds \<Rightarrow>
                 if d = CHR '']'' then Inr (JArr [], ds)
                 else (case parse_elems n cs of Inl e \<Rightarrow> Inl e | Inr (xs, r) \<Rightarrow> Inr (JArr xs, r)))
          else if c = CHR ''{'' then
            (case skip_ws cs of
               [] \<Rightarrow> Inl SyntaxError
             | d # ds \<Rightarrow>
                 if d = CHR ''}'' then Inr (JObj [], ds)
                 else
                   (case parse_members n cs of
                      Inl e \<Rightarrow> Inl e
                    | Inr (ms, r) \<Rightarrow>
                        if distinct (map fst ms) then Inr (JObj ms, r) else Inl Unsupported))
          else parse_number (c # cs))"
| "parse_elems 0 s = Inl Unsupported"
| "parse_elems (Suc n) s =
     (case parse_value n s of
        Inl e \<Rightarrow> Inl e
      | Inr (x, r) \<Rightarrow>
          (case skip_ws r of
             [] \<Rightarrow> Inl SyntaxError
           | c # cs \<Rightarrow>
               if c = CHR '']'' then Inr ([x], cs)
               else if c = CHR '','' then cons_result x (parse_elems n cs)
               else Inl SyntaxError))"
| "parse_members 0 s = Inl Unsupported"
| "parse_members (Suc n) s =
     (case skip_ws s of
        [] \<Rightarrow> Inl SyntaxError
      | q # qs \<Rightarrow>
          if q \<noteq> CHR 0x22 then Inl SyntaxError
          else
            (case parse_chars qs of
               Inl e \<Rightarrow> Inl e
             | Inr (k, r) \<Rightarrow>
                 (case skip_ws r of
                    [] \<Rightarrow> Inl SyntaxError
                  | c # cs \<Rightarrow>
                      if c \<noteq> CHR '':'' then Inl SyntaxError
                      else
                        (case parse_value n cs of
                           Inl e \<Rightarrow> Inl e
                         | Inr (v, r1) \<Rightarrow>
                             (case skip_ws r1 of
                                [] \<Rightarrow> Inl SyntaxError
                              | d # ds \<Rightarrow>
                                  if d = CHR ''}'' then Inr ([(k, v)], ds)
                                  else if d = CHR '','' then cons_result (k, v) (parse_members n ds)
                                  else Inl SyntaxError)))))"

definition JSON_parse :: "string \<Rightarrow> exn + json" where
  "JSON_parse s =
     (case parse_value (Suc (length s)) s of
        Inl e \<Rightarrow> Inl e
      | Inr (v, r) \<Rightarrow> if skip_ws r = [] then Inr v else Inl SyntaxError)"

definition number_end :: "string \<Rightarrow> bool" where
  "number_end rest = (case rest of [] \<Rightarrow> True | c # cs \<Rightarrow> \<not> is_digit c \<and> c \<notin> set ''.eE'')"

fun wf_json :: "json \<Rightarrow> bool"
  and wf_elems :: "json list \<Rightarrow> bool"
  and wf_members :: "(string \<times> json) list \<Rightarrow> bool"
where
  "wf_json JNull = True"
| "wf_json (JBool b) = True"
| "wf_json (JNum i) = True"
| "wf_json (JStr s) = True"
| "wf_json (JArr xs) = wf_elems xs"
| "wf_json (JObj ms) = (distinct (map fst ms) \<and> wf_members ms)"
| "wf_elems [] = True"
| "wf_elems (x # xs) = (wf_json x \<and> wf_elems xs)"
| "wf_members [] = True"
| "wf_members ((k, v) # ms) = (wf_json v \<and> wf_members ms)"

fun fuel :: "json \<Rightarrow> nat"
  and fuel_elems :: "json list \<Rightarrow> nat"
  and fuel_members :: "(string \<times> json) list \<Rightarrow> nat"
where
  "fuel JNull = 1"
| "fuel (JBool b) = 1"
| "fuel (JNum i) = 1"
| "fuel (JStr s) = 1"
| "fuel (JArr xs) = Suc (fuel_elems xs)"
| "fuel (JObj ms) = Suc (fuel_members ms)"
| "fuel_elems [] = 0"
| "fuel_elems (x # xs) = Suc (fuel x + fuel_elems xs)"
| "fuel_members [] = 0"
| "fuel_members ((k, v) # ms) = Suc (fuel v + fuel_members ms)"

definition delimited :: "string \<Rightarrow> bool" where
  "delimited rest =
     (case rest of [] \<Rightarrow> True | c # cs \<Rightarrow> c = CHR '','' \<or> c = CHR '']'' \<or> c = CHR ''}'')"

definition opens_value :: "char \<Rightarrow> bool" where
  "opens_value c = (\<not> is_ws c \<and> c \<noteq> CHR '']'' \<and> c \<noteq> CHR ''}'' \<and> c \<noteq> CHR '','' \<and> c \<noteq> CHR '':'')"

definition opens_number :: "char \<Rightarrow> bool" where
  "opens_number c = (c = CHR ''-'' \<or> is_digit c)"

section \<open>The URL hook \<open>useUrlStorageState\<close>\<close>

subsection \<open>Parameter names and query strings\<close>

text \<open>
  \<open>kebabize\<close> replaces \<open>/([a-z0-9]|(?=[A-Z]))([A-Z])/g\<close> by \<open>$1-$2\<close> and lowercases the
  result: every capital letter gets a hyphen in front of it, whether or not a lowercase
  letter or digit precedes it, and becomes lowercase. Keys are taken to be ASCII.
\<close>

definition is_upper :: "char \<Rightarrow> bool" where
  "is_upper c = (65 \<le> (of_char c :: nat) \<and> (of_char c :: nat) \<le> 90)"

definition toLowerCase :: "char \<Rightarrow> char" where
  "toLowerCase c = (if is_upper c then char_of ((of_char c :: nat) + 32) else c)"

fun kebabize :: "string \<Rightarrow> string" where
  "kebabize [] = []"
| "kebabize (c # cs) =
     (if is_upper c then CHR ''-'' # toLowerCase c # kebabize cs else c # kebabize cs)"

text \<open>
  A query string is represented by the list of decoded name/value pairs that
  \<open>new URLSearchParams(location.search)\<close> reads from it; \<open>toString\<close> followed by parsing
  gives the same list back, so \<open>navigate({search: `?${searchParams}`})\<close> stores the list.
  \<open>get\<close> answers the first value of a name (\<open>null\<close> when there is none); \<open>set\<close> overwrites
  the first pair of the name and deletes the others, or appends a new pair.
\<close>

type_synonym URLSearchParams = "(string \<times> string) list"

fun URLSearchParams_get :: "string \<Rightarrow> URLSearchParams \<Rightarrow> string option" where
  "URLSearchParams_get name [] = None"
| "URLSearchParams_get name ((n, v) # ps) = (if n = name then Some v else URLSearchParams_get name ps)"

fun URLSearchParams_set :: "string \<Rightarrow> string \<Rightarrow> URLSearchParams \<Rightarrow> URLSearchParams" where
  "URLSearchParams_set name v [] = [(name, v)]"
| "URLSearchParams_set name v ((n, v') # ps) =
     (if n = name then (name, v) # filter (\<lambda>p. fst p \<noteq> name) ps
      else (n, v') # URLSearchParams_set name v ps)"

text \<open>
  \<open>navigate\<close> with only a \<open>search\<close> keeps the path. A push puts the current entry on the
  back stack; a replace overwrites the current entry.
\<close>

definition navigate :: "URLSearchParams \<Rightarrow> history_mode \<Rightarrow> window \<Rightarrow> window" where
  "navigate ps mode w =
     logged (Navigate ps mode)
       (case mode of
          Replace \<Rightarrow> w\<lparr>search := ps\<rparr>
        | Push \<Rightarrow> w\<lparr>search := ps, back_entries := (pathname w, search w) # back_entries w\<rparr>)"

fun is_push :: "effect \<Rightarrow> bool" where
  "is_push (Navigate ps Push) = True"
| "is_push e = False"

subsection \<open>The hook\<close>

definition serializeState :: "json \<Rightarrow> string" where
  "serializeState state = (case state of JStr s \<Rightarrow> s | _ \<Rightarrow> JSON_stringify state)"

record useUrlStorageStateParams =
  param_storage :: "area option"
  param_key :: string
  param_prefix :: "string option"
  param_defaultValue :: json

text \<open>\<open>prefix ? \<dots> : \<dots>\<close> is truthiness again: no prefix and the empty prefix go the same way.\<close>

definition storageKey :: "useUrlStorageStateParams \<Rightarrow> window \<Rightarrow> string" where
  "storageKey q w =
     (case param_prefix q of
        Some prefix \<Rightarrow>
          if prefix \<noteq> [] then prefix @ ''_'' @ param_key q
          else ''urlStorage_'' @ pathname w @ ''_'' @ param_key q
      | None \<Rightarrow> ''urlStorage_'' @ pathname w @ ''_'' @ param_key q)"

text \<open>
  The configuration handed to \<open>useStorage\<close>. The stored value is a string, on which
  \<open>serializeState\<close> is the identity; \<open>storage\<close> left out means \<open>window.localStorage\<close>.
\<close>

definition storageProps :: "useUrlStorageStateParams \<Rightarrow> window \<Rightarrow> string StorageProps" where
  "storageProps q w =
     \<lparr>key = storageKey q w,
      defaultValue = Plain (serializeState (param_defaultValue q)),
      storage = (case param_storage q of None \<Rightarrow> LocalStorage | Some a \<Rightarrow> a),
      live = False,
      serialize = (\<lambda>state. serializeState (JStr state)),
      deserialize = (\<lambda>state. Inr state),
      forceInit = never\<rparr>"

text \<open>
  The first effect of the URL hook writes the storage value into the URL when the
  parameter is missing or empty; the second hands a non-empty parameter to
  \<open>setStorageState\<close>. Both read the \<open>location.search\<close> and the \<open>storageState\<close> of the
  render they belong to.
\<close>

definition populateUrlEffect :: "useUrlStorageStateParams \<Rightarrow> string \<Rightarrow> URLSearchParams \<Rightarrow> window \<Rightarrow> window" where
  "populateUrlEffect q storageState searchParams w =
     (let keyParam = URLSearchParams_get (kebabize (param_key q)) searchParams
      in if keyParam = None \<or> keyParam = Some []
         then navigate (URLSearchParams_set (kebabize (param_key q)) storageState searchParams) Replace w
         else w)"

definition adoptUrlEffect :: "useUrlStorageStateParams \<Rightarrow> URLSearchParams \<Rightarrow> string hook \<Rightarrow> string hook" where
  "adoptUrlEffect q searchParams h =
     (case URLSearchParams_get (kebabize (param_key q)) searchParams of
        None \<Rightarrow> h
      | Some keyParam \<Rightarrow> if keyParam = [] then h else setValue keyParam h)"

text \<open>
  A mounted URL hook: its \<open>useStorage\<close> instance, and the \<open>key\<close>, \<open>storageState\<close> and
  \<open>location.search\<close> of the last render, against which the next render compares the
  dependencies of the two effects. The other dependencies, \<open>navigate\<close> and
  \<open>setStorageState\<close>, are the same functions in every render, as is \<open>serializeState\<close>
  for the inner hook. Effects run in the order of their declaration: those of
  \<open>useStorage\<close> first, then the two of this hook; a state update or navigation made by
  an effect is seen by the next render.
\<close>

record url_hook =
  inner :: "string hook"
  seen :: "string \<times> string \<times> URLSearchParams"

definition useUrlStorageState_mount :: "useUrlStorageStateParams \<Rightarrow> window \<Rightarrow> url_hook \<times> window" where
  "useUrlStorageState_mount q w =
     (let searchParams = search w;
          (h, w1) = useStorage_mount (storageProps q w) w;
          storageState = val h;
          w2 = populateUrlEffect q storageState searchParams w1;
          h2 = adoptUrlEffect q searchParams h
      in (\<lparr>inner = h2, seen = (param_key q, storageState, searchParams)\<rparr>, w2))"

definition useUrlStorageState_update :: "useUrlStorageStateParams \<Rightarrow> url_hook \<Rightarrow> window \<Rightarrow> url_hook \<times> window" where
  "useUrlStorageState_update q b w =
     (let searchParams = search w;
          storageState = val (inner b);
          (h, w1) = useStorage_update False (storageProps q w) (inner b) w;
          (key0, storageState0, searchParams0) = seen b;
          w2 = (if (storageState, param_key q, searchParams) \<noteq> (storageState0, key0, searchParams0)
                then populateUrlEffect q storageState searchParams w1 else w1);
          h2 = (if (param_key q, searchParams) \<noteq> (key0, searchParams0)
                then adoptUrlEffect q searchParams h else h)
      in (\<lparr>inner = h2, seen = (param_key q, storageState, searchParams)\<rparr>, w2))"

text \<open>
  Another render is due when the state cell or the location is no longer what the last
  render saw. \<open>settle\<close> renders until none is due, at most \<open>n\<close> times.
\<close>

definition pending :: "url_hook \<Rightarrow> window \<Rightarrow> bool" where
  "pending b w = (case seen b of (key0, storageState0, searchParams0) \<Rightarrow>
     val (inner b) \<noteq> storageState0 \<or> search w \<noteq> searchParams0)"

fun settle :: "nat \<Rightarrow> useUrlStorageStateParams \<Rightarrow> url_hook \<times> window \<Rightarrow> (url_hook \<times> window) option" where
  "settle 0 q bw = None"
| "settle (Suc n) q (b, w) =
     (if pending b w then settle n q (useUrlStorageState_update q b w) else Some (b, w))"

text \<open>The value the hook returns, the \<open>useMemo\<close> over \<open>location.search\<close>.\<close>

definition stateMemo :: "json \<Rightarrow> string option \<Rightarrow> json" where
  "stateMemo dflt urlParam =
     (case urlParam of
        None \<Rightarrow> dflt
      | Some u \<Rightarrow>
          if u = [] then dflt
          else (case JSON_parse u of Inr v \<Rightarrow> v | Inl error \<Rightarrow> JStr u))"

definition currentState :: "useUrlStorageStateParams \<Rightarrow> window \<Rightarrow> json" where
  "currentState q w =
     stateMemo (param_defaultValue q) (URLSearchParams_get (kebabize (param_key q)) (search w))"

text \<open>
  \<open>updateState\<close>, called with a value or with an updater. It closes over the
  \<open>storageState\<close> and \<open>location.search\<close> of the last render. \<open>JSON.parse\<close> is not guarded
  here, so its exception leaves the function.
\<close>

datatype setter_arg = NewValue json | Updater "json \<Rightarrow> json"

definition updateState :: "useUrlStorageStateParams \<Rightarrow> url_hook \<Rightarrow> setter_arg \<Rightarrow> window \<Rightarrow> exn + window" where
  "updateState q b arg w =
     (let (key0, storageState, searchParams) = seen b
      in case (case arg of
                 Updater f \<Rightarrow>
                   (case JSON_parse storageState of Inl error \<Rightarrow> Inl error | Inr prev \<Rightarrow> Inr (f prev))
               | NewValue v \<Rightarrow> Inr v) of
           Inl error \<Rightarrow> Inl error
         | Inr newValueToSet \<Rightarrow>
             Inr (navigate
                    (URLSearchParams_set (kebabize (param_key q)) (serializeState newValueToSet) searchParams)
                    Push w))"

subsection \<open>Auxiliary notions\<close>

text \<open>What the first render of the URL hook reads from the storage.\<close>

definition loaded :: "useUrlStorageStateParams \<Rightarrow> window \<Rightarrow> string" where
  "loaded q w =
     (case stores w (storage (storageProps q w)) (storageKey q w) of
        None \<Rightarrow> serializeState (param_defaultValue q)
      | Some raw \<Rightarrow> if raw = [] then serializeState (param_defaultValue q) else raw)"

fun is_string :: "json \<Rightarrow> bool" where
  "is_string (JStr s) = True"
| "is_string v = False"

text \<open>
  Values that come back unchanged from the URL parameter they are written to, when they
  are also the default: JSON values other than strings, the empty string, and strings
  that are not JSON text.
\<close>

definition survives_url :: "json \<Rightarrow> bool" where
  "survives_url v =
     (case v of
        JStr s \<Rightarrow> s = [] \<or> JSON_parse s = Inl SyntaxError
      | _ \<Rightarrow> wf_json v)"

text \<open>
  The value that the second effect leaves in the state cell for a given query string:
  the parameter when it is present and not empty, the previous value otherwise.
\<close>

definition adopted :: "useUrlStorageStateParams \<Rightarrow> URLSearchParams \<Rightarrow> string \<Rightarrow> string" where
  "adopted q searchParams storageState =
     (case URLSearchParams_get (kebabize (param_key q)) searchParams of
        None \<Rightarrow> storageState
      | Some keyParam \<Rightarrow> if keyParam = [] then storageState else keyParam)"

text \<open>
  What holds between a hook and the window after every render, as long as nothing but
  the hook writes the storage entry: the remembered key is the current one, the inner
  hook's reference and dependencies name the derived key, the storage holds the
  \<open>storageState\<close> of the last render, and the state cell holds what the second effect
  made of that render's query string.
\<close>

definition rendered :: "useUrlStorageStateParams \<Rightarrow> url_hook \<Rightarrow> window \<Rightarrow> bool" where
  "rendered q b w =
     (case seen b of (key0, storageState0, searchParams0) \<Rightarrow>
        key0 = param_key q
      \<and> prevKeyRef (inner b) = storageKey q w
      \<and> deps (inner b) = (storageKey q w, storageState0, storage (storageProps q w))
      \<and> stores w (storage (storageProps q w)) (storageKey q w) = Some storageState0
      \<and> val (inner b) = adopted q searchParams0 storageState0)"

section \<open>Concrete configurations\<close>

text \<open>
  Inputs on which the theorems below are evaluated: a hook over strings with identity
  (de)serialisation, as the repository's tests use it, the same hook on
  \<open>sessionStorage\<close>, and a hook over booleans whose deserialiser rejects every text but
  \<open>true\<close> and \<open>false\<close>.
\<close>

definition strProps :: "string StorageProps" where
  "strProps = \<lparr>key = ''k'', defaultValue = Plain ''initial value'', storage = LocalStorage,
     live = True, serialize = (\<lambda>s. s), deserialize = Inr, forceInit = never\<rparr>"

definition sessionProps :: "string StorageProps" where
  "sessionProps = strProps\<lparr>storage := SessionStorage\<rparr>"

definition nextKeyProps :: "string StorageProps" where
  "nextKeyProps = strProps\<lparr>key := ''changed-key''\<rparr>"

definition parseFlag :: "string \<Rightarrow> exn + bool" where
  "parseFlag s =
     (if s = ''true'' then Inr True else if s = ''false'' then Inr False else Inl SyntaxError)"

definition flagProps :: "bool StorageProps" where
  "flagProps = \<lparr>key = ''flag'', defaultValue = Producer (\<lambda>u. True), storage = SessionStorage,
     live = False, serialize = (\<lambda>b. if b then ''true'' else ''false''), deserialize = parseFlag,
     forceInit = never\<rparr>"

definition emptyWindow :: window where
  "emptyWindow = \<lparr>stores = (\<lambda>a. Map.empty), pathname = ''/'', search = [], back_entries = [], log = []\<rparr>"

definition seeded :: "area \<Rightarrow> string \<Rightarrow> string \<Rightarrow> window" where
  "seeded a k v = emptyWindow\<lparr>stores := (stores emptyWindow)(a := [k \<mapsto> v])\<rparr>"

definition hookOf :: "'v StorageProps \<Rightarrow> 'v \<Rightarrow> 'v hook" where
  "hookOf p v = \<lparr>val = v, prevKeyRef = key p, deps = (key p, v, storage p)\<rparr>"

definition eventFor :: "area \<Rightarrow> string \<Rightarrow> string option \<Rightarrow> StorageEvent" where
  "eventFor a k v = \<lparr>eventKey = Some k, newValue = v, oldValue = None, storageArea = Some a\<rparr>"

text \<open>
  Configurations of the URL hook: the string default of the repository's tests, the
  object default of its documentation, and a string default that reads as a JSON number.
  \<open>useStorageDefaults\<close> is \<open>useStorage\<close> called with a key and a default only.
  \<open>mounted\<close> is the hook after its first render has settled.
\<close>

definition defaultParams :: useUrlStorageStateParams where
  "defaultParams = \<lparr>param_storage = None, param_key = ''key'', param_prefix = None,
     param_defaultValue = JStr ''default''\<rparr>"

definition filtersParams :: useUrlStorageStateParams where
  "filtersParams = \<lparr>param_storage = None, param_key = ''filters'', param_prefix = None,
     param_defaultValue = JObj [(''search'', JStr ''''), (''category'', JStr ''all'')]\<rparr>"

definition numeralParams :: useUrlStorageStateParams where
  "numeralParams = defaultParams\<lparr>param_defaultValue := JStr ''123''\<rparr>"



definition mounted :: "useUrlStorageStateParams \<Rightarrow> window \<Rightarrow> url_hook \<times> window" where
  "mounted q w = the (settle 2 q (useUrlStorageState_mount q w))"

section \<open>Printing and parsing JSON\<close>

subsection \<open>Numerals\<close>

text \<open>
  The decimal digits of a number consist of digits only, have no leading zero, and are
  read back to the number; so a printed integer followed by a delimiter parses to itself.
\<close>

lemma of_char_digit_char: "d < 10 \<Longrightarrow> (of_char (digit_char d) :: nat) = 48 + d"
  by (simp add: digit_char_def)

lemma is_digit_digit_char: "d < 10 \<Longrightarrow> is_digit (digit_char d)"
  by (simp add: is_digit_def of_char_digit_char)

lemma digits_all_digit: "c \<in> set (digits n) \<Longrightarrow> is_digit c"
proof (induction n arbitrary: c rule: digits.induct)
  case (1 n)
  show ?case
  proof (cases "n < 10")
    case True
    with "1.prems" show ?thesis
      by (simp add: digits.simps [of n] is_digit_digit_char)
  next
    case False
    with "1.prems" "1.IH" show ?thesis
      by (auto simp: digits.simps [of n] is_digit_digit_char)
  qed
qed

lemma digits_nonempty: "digits n \<noteq> []"
  by (subst digits.simps) simp

lemma digits_val_snoc: "digits_val (ds @ [d]) = 10 * digits_val ds + (of_char d - 48)"
  by (simp add: digits_val_def)

lemma digits_val_digits: "digits_val (digits n) = n"
proof (induction n rule: digits.induct)
  case (1 n)
  show ?case
  proof (cases "n < 10")
    case True
    then show ?thesis
      by (simp add: digits.simps [of n] digits_val_def of_char_digit_char)
  next
    case False
    with "1.IH" show ?thesis
      by (simp add: digits.simps [of n] digits_val_snoc of_char_digit_char)
  qed
qed

lemma digit_char_zero: "d < 10 \<Longrightarrow> digit_char d = CHR ''0'' \<Longrightarrow> d = 0"
proof -
  assume d: "d < 10" and e: "digit_char d = CHR ''0''"
  from e have "(of_char (digit_char d) :: nat) = of_char (CHR ''0'')" by simp
  with d show "d = 0" by (simp add: of_char_digit_char)
qed

lemma digits_leading: "0 < n \<Longrightarrow> hd (digits n) \<noteq> CHR ''0''"
proof (induction n rule: digits.induct)
  case (1 n)
  show ?case
  proof (cases "n < 10")
    case True
    with "1.prems" show ?thesis
      using digit_char_zero [of n] by (auto simp: digits.simps [of n])
  next
    case False
    then have "0 < n div 10" by simp
    with False "1.IH" have "hd (digits (n div 10)) \<noteq> CHR ''0''" by simp
    with False show ?thesis
      by (simp add: digits.simps [of n] digits_nonempty)
  qed
qed

lemma digits_single_or_leading: "\<not> (hd (digits n) = CHR ''0'' \<and> 1 < length (digits n))"
proof (cases "n = 0")
  case True
  then show ?thesis by (simp add: digits.simps [of 0])
next
  case False
  then show ?thesis using digits_leading [of n] by simp
qed

lemma takeWhile_digits: "number_end rest \<Longrightarrow> takeWhile is_digit (digits n @ rest) = digits n"
  by (cases rest) (auto simp: number_end_def takeWhile_append2 digits_all_digit takeWhile_eq_all_conv)

lemma dropWhile_digits: "number_end rest \<Longrightarrow> dropWhile is_digit (digits n @ rest) = rest"
  by (cases rest) (auto simp: number_end_def dropWhile_append2 digits_all_digit)

lemma hd_digits_not_minus: "hd (digits n) \<noteq> CHR ''-''"
proof -
  have "hd (digits n) \<in> set (digits n)" by (simp add: digits_nonempty)
  then have "is_digit (hd (digits n))" by (rule digits_all_digit)
  then show ?thesis by (auto simp: is_digit_def)
qed

lemma number_end_no_fraction: "number_end rest \<Longrightarrow> \<not> (rest \<noteq> [] \<and> hd rest \<in> set ''.eE'')"
  by (cases rest) (auto simp: number_end_def)

lemma parse_number_digits:
  assumes "number_end rest"
  shows "parse_number (digits m @ rest) = Inr (JNum (int m), rest)"
proof -
  have neg: "\<not> (digits m @ rest \<noteq> [] \<and> hd (digits m @ rest) = CHR ''-'')"
    by (simp add: hd_append digits_nonempty hd_digits_not_minus)
  show ?thesis
    unfolding parse_number_def Let_def
    using neg number_end_no_fraction [OF assms] digits_single_or_leading [of m]
    by (simp add: takeWhile_digits [OF assms] dropWhile_digits [OF assms] digits_nonempty
          digits_val_digits)
qed

lemma parse_number_minus_digits:
  assumes "number_end rest" and "0 < m"
  shows "parse_number (CHR ''-'' # digits m @ rest) = Inr (JNum (- int m), rest)"
  unfolding parse_number_def Let_def
  using number_end_no_fraction [OF assms(1)] digits_single_or_leading [of m]
  by (simp add: takeWhile_digits [OF assms(1)] dropWhile_digits [OF assms(1)] digits_nonempty
        digits_val_digits)

lemma parse_number_show_int:
  assumes "number_end rest"
  shows "parse_number (show_int i @ rest) = Inr (JNum i, rest)"
proof (cases "i < 0")
  case True
  then have "0 < nat (- i)" by simp
  from parse_number_minus_digits [OF assms this] True show ?thesis
    by (simp add: show_int_def)
next
  case False
  with parse_number_digits [OF assms, of "nat i"] show ?thesis
    by (simp add: show_int_def)
qed

subsection \<open>String literals\<close>

text \<open>Every escape sequence that the printer writes is read back as the character it stands for.\<close>

lemma hex_val_hex_char: "d < 16 \<Longrightarrow> hex_val (hex_char d) = Some d"
  by (auto simp: hex_val_def hex_char_def Let_def)

lemma hex4_control:
  "n < 32 \<Longrightarrow> hex4 (CHR ''0'') (CHR ''0'') (hex_char (n div 16)) (hex_char (n mod 16)) = Some n"
proof -
  assume n: "n < 32"
  then have a: "n div 16 < 16" and b: "n mod 16 < 16" by simp_all
  have z: "hex_val (CHR ''0'') = Some 0" by (simp add: hex_val_def)
  show ?thesis
    by (simp add: hex4_def z hex_val_hex_char [OF a] hex_val_hex_char [OF b])
qed

lemma parse_chars_escape:
  "parse_chars (escape_char c @ t) = cons_result c (parse_chars t)"
proof (cases "(of_char c :: nat) < 32")
  case True
  have lt: "(of_char c :: nat) < 256" using True by simp
  show ?thesis
    using True hex4_control [OF True]
    by (auto simp: escape_char_def unescape_def)
next
  case False
  then show ?thesis
    by (auto simp: escape_char_def unescape_def)
qed

lemma parse_chars_quoted:
  "parse_chars (concat (map escape_char s) @ CHR 0x22 # rest) = Inr (s, rest)"
  by (induction s) (simp_all add: parse_chars_escape cons_result_def)

subsection \<open>Values\<close>

text \<open>
  A printed value never starts with white space or a closing delimiter, which lets the
  parser pick the right production from the first character. The main statement is
  proved for the three printers together, with enough fuel and with the text that follows
  the value starting with a delimiter.
\<close>

lemma delimited_number_end: "delimited rest \<Longrightarrow> number_end rest"
  by (cases rest) (auto simp: delimited_def number_end_def is_digit_def)

lemma delimited_simps [simp]:
  "delimited []" "delimited (CHR '','' # t)" "delimited (CHR '']'' # t)" "delimited (CHR ''}'' # t)"
  by (simp_all add: delimited_def)

lemma skip_ws_Cons: "\<not> is_ws c \<Longrightarrow> skip_ws (c # cs) = c # cs"
  by (simp add: skip_ws_def)

lemma show_int_first: "\<exists>c cs. show_int i = c # cs \<and> (c = CHR ''-'' \<or> is_digit c)"
proof (cases "i < 0")
  case True
  then show ?thesis by (simp add: show_int_def)
next
  case False
  obtain c cs where d: "digits (nat i) = c # cs"
    using digits_nonempty [of "nat i"] by (cases "digits (nat i)") auto
  then have "c \<in> set (digits (nat i))" by simp
  then have "is_digit c" by (rule digits_all_digit)
  with d False show ?thesis by (simp add: show_int_def)
qed

lemma stringify_first: "\<exists>c cs. JSON_stringify v = c # cs \<and> opens_value c"
proof (cases v)
  case (JNum i)
  from show_int_first [of i] obtain c cs where "show_int i = c # cs" "c = CHR ''-'' \<or> is_digit c"
    by blast
  with JNum show ?thesis
    by (auto simp: opens_value_def is_ws_def is_digit_def)
qed (auto simp: opens_value_def is_ws_def quote_def)

lemma opens_number_other:
  assumes "opens_number c"
  shows "\<not> is_ws c" "c \<noteq> CHR ''n''" "c \<noteq> CHR ''t''" "c \<noteq> CHR ''f''" "c \<noteq> CHR 0x22"
    "c \<noteq> CHR ''[''" "c \<noteq> CHR ''{''"
  using assms by (auto simp: opens_number_def is_digit_def is_ws_def)

lemma parse_value_dispatch_number:
  assumes "opens_number c"
  shows "parse_value (Suc n) (c # cs) = parse_number (c # cs)"
  using opens_number_other [OF assms] by (simp add: skip_ws_Cons)

lemma parse_value_number:
  assumes "number_end rest"
  shows "parse_value (Suc n) (show_int i @ rest) = Inr (JNum i, rest)"
proof -
  from show_int_first [of i] obtain c cs where s: "show_int i = c # cs" and c: "opens_number c"
    unfolding opens_number_def by blast
  have "parse_value (Suc n) (c # cs @ rest) = parse_number (c # cs @ rest)"
    by (rule parse_value_dispatch_number [OF c])
  also have "\<dots> = Inr (JNum i, rest)"
    using parse_number_show_int [OF assms, of i] s by simp
  finally show ?thesis by (simp add: s)
qed

lemma parse_value_atoms:
  "parse_value (Suc n) (''null'' @ rest) = Inr (JNull, rest)"
  "parse_value (Suc n) (''true'' @ rest) = Inr (JBool True, rest)"
  "parse_value (Suc n) (''false'' @ rest) = Inr (JBool False, rest)"
  "parse_value (Suc n) (quote s @ rest) = Inr (JStr s, rest)"
  by (simp_all add: skip_ws_Cons is_ws_def literal_def strip_prefix_def quote_def parse_chars_quoted)

lemma elems_first: "xs \<noteq> [] \<Longrightarrow> \<exists>c cs. stringify_elems xs = c # cs \<and> opens_value c"
proof (cases xs)
  case Nil
  assume "xs \<noteq> []"
  with Nil show ?thesis by simp
next
  case (Cons x ys)
  from stringify_first [of x] obtain c cs where "JSON_stringify x = c # cs" "opens_value c"
    by blast
  with Cons show ?thesis by (cases ys) auto
qed

lemma members_first: "ms \<noteq> [] \<Longrightarrow> \<exists>cs. stringify_members ms = CHR 0x22 # cs"
proof (cases ms)
  case Nil
  assume "ms \<noteq> []"
  with Nil show ?thesis by simp
next
  case (Cons m ns)
  then show ?thesis by (cases m; cases ns) (auto simp: quote_def)
qed

lemma parse_value_empty:
  "parse_value (Suc n) (JSON_stringify (JArr []) @ rest) = Inr (JArr [], rest)"
  "parse_value (Suc n) (JSON_stringify (JObj []) @ rest) = Inr (JObj [], rest)"
  by (simp_all add: skip_ws_Cons is_ws_def)

lemma parse_value_array:
  assumes "xs \<noteq> []"
    and "parse_elems n (stringify_elems xs @ CHR '']'' # rest) = Inr (xs, rest)"
  shows "parse_value (Suc n) (JSON_stringify (JArr xs) @ rest) = Inr (JArr xs, rest)"
proof -
  from elems_first [OF assms(1)] obtain c cs where e: "stringify_elems xs = c # cs" and c: "opens_value c"
    by blast
  from c have "\<not> is_ws c" "c \<noteq> CHR '']''" by (simp_all add: opens_value_def)
  with assms(2) show ?thesis
    by (simp add: e skip_ws_Cons is_ws_def)
qed

lemma parse_value_object:
  assumes "ms \<noteq> []" and "distinct (map fst ms)"
    and "parse_members n (stringify_members ms @ CHR ''}'' # rest) = Inr (ms, rest)"
  shows "parse_value (Suc n) (JSON_stringify (JObj ms) @ rest) = Inr (JObj ms, rest)"
proof -
  from members_first [OF assms(1)] obtain cs where e: "stringify_members ms = CHR 0x22 # cs"
    by blast
  with assms(2,3) show ?thesis
    by (simp add: e skip_ws_Cons is_ws_def)
qed

lemma skip_ws_delims [simp]:
  "skip_ws (CHR '','' # t) = CHR '','' # t"
  "skip_ws (CHR '']'' # t) = CHR '']'' # t"
  "skip_ws (CHR ''}'' # t) = CHR ''}'' # t"
  "skip_ws (CHR '':'' # t) = CHR '':'' # t"
  "skip_ws (CHR 0x22 # t) = CHR 0x22 # t"
  by (simp_all add: skip_ws_def is_ws_def)

lemma parse_elems_last:
  assumes "parse_value n (JSON_stringify x @ CHR '']'' # rest) = Inr (x, CHR '']'' # rest)"
  shows "parse_elems (Suc n) (stringify_elems [x] @ CHR '']'' # rest) = Inr ([x], rest)"
  using assms by simp

lemma parse_elems_more:
  assumes "parse_value n (JSON_stringify x @ CHR '','' # t) = Inr (x, CHR '','' # t)"
    and "parse_elems n t = Inr (ys, rest)"
  shows "parse_elems (Suc n) (JSON_stringify x @ CHR '','' # t) = Inr (x # ys, rest)"
  using assms by (simp add: cons_result_def)

lemma parse_members_last:
  assumes "parse_value n (JSON_stringify v @ CHR ''}'' # rest) = Inr (v, CHR ''}'' # rest)"
  shows "parse_members (Suc n) (stringify_members [(k, v)] @ CHR ''}'' # rest) = Inr ([(k, v)], rest)"
  using assms by (simp add: quote_def parse_chars_quoted)

lemma parse_members_more:
  assumes "parse_value n (JSON_stringify v @ CHR '','' # t) = Inr (v, CHR '','' # t)"
    and "parse_members n t = Inr (ms, rest)"
  shows "parse_members (Suc n) (quote k @ CHR '':'' # JSON_stringify v @ CHR '','' # t)
           = Inr ((k, v) # ms, rest)"
  using assms by (simp add: quote_def parse_chars_quoted cons_result_def)

lemma parse_stringify:
  "(\<forall>n rest. wf_json v \<longrightarrow> fuel v \<le> n \<longrightarrow> delimited rest \<longrightarrow>
        parse_value n (JSON_stringify v @ rest) = Inr (v, rest))"
  "(\<forall>n rest. xs \<noteq> [] \<longrightarrow> wf_elems xs \<longrightarrow> fuel_elems xs \<le> n \<longrightarrow>
        parse_elems n (stringify_elems xs @ CHR '']'' # rest) = Inr (xs, rest))"
  "(\<forall>n rest. ms \<noteq> [] \<longrightarrow> wf_members ms \<longrightarrow> fuel_members ms \<le> n \<longrightarrow>
        parse_members n (stringify_members ms @ CHR ''}'' # rest) = Inr (ms, rest))"
proof (induction v and xs and ms rule: JSON_stringify_stringify_elems_stringify_members.induct)
  case 1
  show ?case
  proof (intro allI impI)
    fix n rest assume "fuel JNull \<le> n"
    then obtain m where "n = Suc m" by (cases n) auto
    then show "parse_value n (JSON_stringify JNull @ rest) = Inr (JNull, rest)"
      using parse_value_atoms(1) [of m rest] by simp
  qed
next
  case (2 b)
  show ?case
  proof (intro allI impI)
    fix n rest assume "fuel (JBool b) \<le> n"
    then obtain m where "n = Suc m" by (cases n) auto
    then show "parse_value n (JSON_stringify (JBool b) @ rest) = Inr (JBool b, rest)"
      using parse_value_atoms(2,3) [of m rest] by simp
  qed
next
  case (3 i)
  show ?case
  proof (intro allI impI)
    fix n rest assume "fuel (JNum i) \<le> n" and d: "delimited rest"
    then obtain m where "n = Suc m" by (cases n) auto
    then show "parse_value n (JSON_stringify (JNum i) @ rest) = Inr (JNum i, rest)"
      using parse_value_number [OF delimited_number_end [OF d], of m i] by simp
  qed
next
  case (4 s)
  show ?case
  proof (intro allI impI)
    fix n rest assume "fuel (JStr s) \<le> n"
    then obtain m where "n = Suc m" by (cases n) auto
    then show "parse_value n (JSON_stringify (JStr s) @ rest) = Inr (JStr s, rest)"
      using parse_value_atoms(4) [of m s rest] by simp
  qed
next
  case (5 xs)
  show ?case
  proof (intro allI impI)
    fix n rest assume w: "wf_json (JArr xs)" and f: "fuel (JArr xs) \<le> n"
    from f obtain m where n: "n = Suc m" and m: "fuel_elems xs \<le> m" by (cases n) auto
    show "parse_value n (JSON_stringify (JArr xs) @ rest) = Inr (JArr xs, rest)"
    proof (cases "xs = []")
      case True
      then show ?thesis using parse_value_empty(1) [of m rest] n by simp
    next
      case False
      with 5 w m have "parse_elems m (stringify_elems xs @ CHR '']'' # rest) = Inr (xs, rest)"
        by simp
      from parse_value_array [OF False this] n show ?thesis by simp
    qed
  qed
next
  case (6 ms)
  show ?case
  proof (intro allI impI)
    fix n rest assume w: "wf_json (JObj ms)" and f: "fuel (JObj ms) \<le> n"
    from f obtain m where n: "n = Suc m" and m: "fuel_members ms \<le> m" by (cases n) auto
    from w have d: "distinct (map fst ms)" by simp
    show "parse_value n (JSON_stringify (JObj ms) @ rest) = Inr (JObj ms, rest)"
    proof (cases "ms = []")
      case True
      then show ?thesis using parse_value_empty(2) [of m rest] n by simp
    next
      case False
      with 6 w m have "parse_members m (stringify_members ms @ CHR ''}'' # rest) = Inr (ms, rest)"
        by simp
      from parse_value_object [OF False d this] n show ?thesis by simp
    qed
  qed
next
  case 7
  show ?case by simp
next
  case (8 x)
  show ?case
  proof (intro allI impI)
    fix n rest assume w: "wf_elems [x]" and f: "fuel_elems [x] \<le> n"
    from f obtain m where n: "n = Suc m" and m: "fuel x \<le> m" by (cases n) auto
    from 8 w m have "parse_value m (JSON_stringify x @ CHR '']'' # rest) = Inr (x, CHR '']'' # rest)"
      by simp
    from parse_elems_last [OF this] n
    show "parse_elems n (stringify_elems [x] @ CHR '']'' # rest) = Inr ([x], rest)" by simp
  qed
next
  case (9 x y ys)
  show ?case
  proof (intro allI impI)
    fix n rest assume w: "wf_elems (x # y # ys)" and f: "fuel_elems (x # y # ys) \<le> n"
    let ?t = "stringify_elems (y # ys) @ CHR '']'' # rest"
    from f obtain m where n: "n = Suc m" and m: "fuel x \<le> m" "fuel_elems (y # ys) \<le> m"
      by (cases n) auto
    from 9(1) w m have a: "parse_value m (JSON_stringify x @ CHR '','' # ?t) = Inr (x, CHR '','' # ?t)"
      by simp
    from 9(2) w m have b: "parse_elems m ?t = Inr (y # ys, rest)"
      by simp
    from parse_elems_more [OF a b] n
    show "parse_elems n (stringify_elems (x # y # ys) @ CHR '']'' # rest) = Inr (x # y # ys, rest)"
      by simp
  qed
next
  case 10
  show ?case by simp
next
  case (11 k v)
  show ?case
  proof (intro allI impI)
    fix n rest assume w: "wf_members [(k, v)]" and f: "fuel_members [(k, v)] \<le> n"
    from f obtain m where n: "n = Suc m" and m: "fuel v \<le> m" by (cases n) auto
    from 11 w m have "parse_value m (JSON_stringify v @ CHR ''}'' # rest) = Inr (v, CHR ''}'' # rest)"
      by simp
    from parse_members_last [OF this] n
    show "parse_members n (stringify_members [(k, v)] @ CHR ''}'' # rest) = Inr ([(k, v)], rest)"
      by simp
  qed
next
  case (12 k v m' ms)
  show ?case
  proof (intro allI impI)
    fix n rest assume w: "wf_members ((k, v) # m' # ms)" and f: "fuel_members ((k, v) # m' # ms) \<le> n"
    let ?t = "stringify_members (m' # ms) @ CHR ''}'' # rest"
    from f obtain m where n: "n = Suc m" and m: "fuel v \<le> m" "fuel_members (m' # ms) \<le> m"
      by (cases n) auto
    from 12(1) w m have a: "parse_value m (JSON_stringify v @ CHR '','' # ?t) = Inr (v, CHR '','' # ?t)"
      by simp
    from 12(2) w m have b: "parse_members m ?t = Inr (m' # ms, rest)"
      by simp
    from parse_members_more [OF a b, of k] n
    show "parse_members n (stringify_members ((k, v) # m' # ms) @ CHR ''}'' # rest)
            = Inr ((k, v) # m' # ms, rest)"
      by simp
  qed
qed

text \<open>The fuel that \<open>JSON_parse\<close> supplies, one more than the length of the text, is enough.\<close>

lemma show_int_nonempty: "show_int i \<noteq> []"
  by (simp add: show_int_def digits_nonempty)

lemma fuel_le_length:
  "fuel v \<le> length (JSON_stringify v)"
  "fuel_elems xs \<le> Suc (length (stringify_elems xs))"
  "fuel_members ms \<le> Suc (length (stringify_members ms))"
proof (induction v and xs and ms rule: JSON_stringify_stringify_elems_stringify_members.induct)
  case (3 i)
  from show_int_nonempty [of i] show ?case
    by (cases "show_int i") simp_all
qed (simp_all add: quote_def)

lemma parse_value_stringify:
  "wf_json v \<Longrightarrow> fuel v \<le> n \<Longrightarrow> delimited rest \<Longrightarrow>
   parse_value n (JSON_stringify v @ rest) = Inr (v, rest)"
  using parse_stringify(1) [of v] by blast

lemma JSON_parse_stringify: "wf_json v \<Longrightarrow> JSON_parse (JSON_stringify v) = Inr v"
proof -
  assume w: "wf_json v"
  have f: "fuel v \<le> Suc (length (JSON_stringify v))"
    using fuel_le_length(1) [of v] by simp
  have d: "delimited []" by simp
  from parse_value_stringify [OF w f d]
  have "parse_value (Suc (length (JSON_stringify v))) (JSON_stringify v) = Inr (v, [])"
    by (simp del: parse_value.simps)
  then show ?thesis
    by (simp add: JSON_parse_def skip_ws_def del: parse_value.simps)
qed

lemma stringify_nonempty: "JSON_stringify v \<noteq> []"
  using stringify_first [of v] by auto

section \<open>Properties of the storage hook\<close>

lemmas window_ops = getItem_def setItem_def removeItem_def logged_def

subsection \<open>First load\<close>

text \<open>
  C1, as amended. On first load \<open>initFromStorage\<close> returns \<open>deserialize(raw)\<close> when
  \<open>storage.getItem(key)\<close> yields a non-empty raw string, \<open>forceInit(raw)\<close> is false and
  \<open>deserialize(raw)\<close> succeeds. It returns the resolved default when there is no entry,
  when the entry is the empty string, when \<open>forceInit(raw)\<close> is true, or when
  \<open>deserialize(raw)\<close> throws. Resolving a producer means calling it.
\<close>

theorem initFromStorage_first_load:
  "(stores w (storage p) (key p) = Some raw \<and> raw \<noteq> [] \<and> \<not> forceInit p raw
      \<and> deserialize p raw = Inr v
      \<longrightarrow> fst (initFromStorage p Omitted w) = v)
   \<and> (stores w (storage p) (key p) = None
        \<or> stores w (storage p) (key p) = Some []
        \<or> (stores w (storage p) (key p) = Some raw \<and> forceInit p raw)
        \<or> (stores w (storage p) (key p) = Some raw \<and> deserialize p raw = Inl e)
      \<longrightarrow> fst (initFromStorage p Omitted w) = getDefaultValue (defaultValue p))
   \<and> getDefaultValue (Producer f) = f ()"
  by (auto simp: initFromStorage_def getItem_def Let_def split: option.splits sum.splits)

theorem initFromStorage_first_load_witness:
  "fst (initFromStorage strProps Omitted (seeded LocalStorage ''k'' ''saved'')) = ''saved''
   \<and> fst (initFromStorage flagProps Omitted (seeded SessionStorage ''flag'' ''maybe'')) = True"
proof -
  have a: "stores (seeded LocalStorage ''k'' ''saved'') (storage strProps) (key strProps) = Some ''saved''
           \<and> ''saved'' \<noteq> [] \<and> \<not> forceInit strProps ''saved''
           \<and> deserialize strProps ''saved'' = Inr ''saved''"
    by (simp add: seeded_def emptyWindow_def strProps_def never_def)
  have b: "stores (seeded SessionStorage ''flag'' ''maybe'') (storage flagProps) (key flagProps) = Some ''maybe''
           \<and> deserialize flagProps ''maybe'' = Inl SyntaxError"
    by (simp add: seeded_def emptyWindow_def flagProps_def parseFlag_def)
  have c: "getDefaultValue (defaultValue flagProps) = True"
    by (simp add: flagProps_def)
  from a b c
    initFromStorage_first_load [of "seeded LocalStorage ''k'' ''saved''" strProps "''saved''" "''saved''"]
    initFromStorage_first_load [of "seeded SessionStorage ''flag'' ''maybe''" flagProps "''maybe''" _ SyntaxError]
  show ?thesis by simp
qed

text \<open>
  C1 as stated fails on the empty string: the entry exists, \<open>forceInit\<close> is false on it and
  the identity deserialiser succeeds on it, yet the result is the default
  \<open>initial value\<close>, not the deserialised empty string.
\<close>

theorem initFromStorage_empty_string_counterexample:
  "stores (seeded LocalStorage ''k'' []) (storage strProps) (key strProps) = Some []
   \<and> \<not> forceInit strProps []
   \<and> deserialize strProps [] = Inr []
   \<and> fst (initFromStorage strProps Omitted (seeded LocalStorage ''k'' [])) \<noteq> []"
  by (simp add: initFromStorage_def getItem_def strProps_def emptyWindow_def seeded_def
        logged_def never_def)

subsection \<open>Deserialisation failure\<close>

text \<open>
  C5, as amended. For every non-empty stored raw string on which \<open>deserialize\<close> throws
  while \<open>forceInit\<close> is false, \<open>initFromStorage\<close> returns normally with the resolved
  default, and the entry at the current key is gone from the configured storage; nothing
  else in the storage changes. The log shows the read, the two callbacks and the
  removal.
\<close>

theorem corrupt_entry_purged:
  assumes "stores w (storage p) (key p) = Some raw" and "raw \<noteq> []"
    and "\<not> forceInit p raw" and "deserialize p raw = Inl e"
  shows "fst (initFromStorage p Omitted w) = getDefaultValue (defaultValue p)
       \<and> stores (snd (initFromStorage p Omitted w)) (storage p) (key p) = None
       \<and> stores (snd (initFromStorage p Omitted w)) =
           (stores w)((storage p) := (stores w (storage p))(key p := None))
       \<and> log (snd (initFromStorage p Omitted w)) =
           log w @ [GetItem (storage p) (key p), CallForceInit raw, CallDeserialize raw,
                    RemoveItem (storage p) (key p)]"
  using assms by (simp add: initFromStorage_def window_ops)

theorem corrupt_entry_purged_witness:
  "fst (initFromStorage flagProps Omitted (seeded SessionStorage ''flag'' ''maybe'')) = True
   \<and> stores (snd (initFromStorage flagProps Omitted (seeded SessionStorage ''flag'' ''maybe'')))
        SessionStorage ''flag'' = None"
proof -
  have "stores (seeded SessionStorage ''flag'' ''maybe'') (storage flagProps) (key flagProps) = Some ''maybe''"
    and "''maybe'' \<noteq> []" and "\<not> forceInit flagProps ''maybe''"
    and "deserialize flagProps ''maybe'' = Inl SyntaxError"
    by (simp_all add: seeded_def emptyWindow_def flagProps_def parseFlag_def never_def)
  from corrupt_entry_purged [OF this] show ?thesis
    by (simp add: flagProps_def)
qed

text \<open>
  C5 as stated fails on the empty string: \<open>parseFlag\<close> throws on it and \<open>forceInit\<close> is
  false, but the entry is still in the storage after the initialisation.
\<close>

theorem corrupt_empty_entry_counterexample:
  "stores (seeded SessionStorage ''flag'' []) (storage flagProps) (key flagProps) = Some []
   \<and> \<not> forceInit flagProps []
   \<and> deserialize flagProps [] = Inl SyntaxError
   \<and> stores (snd (initFromStorage flagProps Omitted (seeded SessionStorage ''flag'' [])))
        (storage flagProps) (key flagProps) = Some []"
  by (simp add: initFromStorage_def window_ops flagProps_def parseFlag_def emptyWindow_def
        seeded_def never_def)

subsection \<open>The empty string\<close>

text \<open>
  C10. When \<open>storage.getItem(key)\<close> returns the empty string, the initialisation returns
  the resolved default and the only effect is the read itself: no call of \<open>forceInit\<close> or
  \<open>deserialize\<close> is logged and the storage is as it was. The same holds when the empty
  string is passed in as the argument (then nothing is logged at all).
\<close>

theorem empty_string_is_absent:
  "(stores w (storage p) (key p) = Some [] \<longrightarrow>
      initFromStorage p Omitted w
        = (getDefaultValue (defaultValue p), logged (GetItem (storage p) (key p)) w))
   \<and> initFromStorage p (Given (Some [])) w = (getDefaultValue (defaultValue p), w)"
  by (simp add: initFromStorage_def window_ops)

theorem empty_string_is_absent_witness:
  "initFromStorage flagProps Omitted (seeded SessionStorage ''flag'' [])
     = (True, logged (GetItem SessionStorage ''flag'') (seeded SessionStorage ''flag'' []))
   \<and> stores (logged (GetItem SessionStorage ''flag'') (seeded SessionStorage ''flag'' []))
        SessionStorage ''flag'' = Some []
   \<and> log (logged (GetItem SessionStorage ''flag'') (seeded SessionStorage ''flag'' []))
        = [GetItem SessionStorage ''flag'']"
proof -
  have "stores (seeded SessionStorage ''flag'' []) (storage flagProps) (key flagProps) = Some []"
    by (simp add: seeded_def emptyWindow_def flagProps_def)
  with empty_string_is_absent [of "seeded SessionStorage ''flag'' []" flagProps]
  show ?thesis by (simp add: flagProps_def logged_def seeded_def emptyWindow_def)
qed

subsection \<open>Storage events\<close>

text \<open>
  The listener does nothing when the event's area is not \<open>window.localStorage\<close>, when
  its key is not the current key, or when its new value is the serialised current value.
\<close>

lemma storageChanged_ignores:
  "storageArea ev \<noteq> Some LocalStorage \<or> eventKey ev \<noteq> Some (key p)
     \<or> newValue ev = Some (serialize p (val h))
   \<Longrightarrow> dispatchStorageEvent p ev h w = (h, w)"
  by (auto simp: dispatchStorageEvent_def storageChanged_def)

text \<open>
  C2 does not hold of the code. A hook configured with \<open>sessionStorage\<close> receives an event
  of \<open>localStorage\<close> for its key: the event's area is not the configured backend, and the
  in-memory value changes from \<open>a\<close> to \<open>b\<close>. The same event coming from the configured
  backend is dropped.
\<close>

theorem foreign_area_event_is_applied:
  "storageArea (eventFor LocalStorage ''k'' (Some ''b'')) \<noteq> Some (storage sessionProps)
   \<and> val (fst (dispatchStorageEvent sessionProps (eventFor LocalStorage ''k'' (Some ''b''))
                  (hookOf sessionProps ''a'') emptyWindow)) = ''b''
   \<and> dispatchStorageEvent sessionProps (eventFor SessionStorage ''k'' (Some ''b''))
        (hookOf sessionProps ''a'') emptyWindow = (hookOf sessionProps ''a'', emptyWindow)"
  by (simp add: dispatchStorageEvent_def storageChanged_def initFromStorage_def sessionProps_def
        strProps_def eventFor_def hookOf_def setValue_def never_def window_ops)

text \<open>
  C7, as amended. With live sync on \<open>window.localStorage\<close>, an event of that area for the
  current key whose new value is absent or empty sets the in-memory value to the resolved
  default and touches neither the storage nor the callbacks, unless the new value equals
  the serialised current value (then the event is dropped as an echo).
\<close>

theorem cleared_key_resets_to_default:
  assumes "live p" and "storage p = LocalStorage"
    and "storageArea ev = Some LocalStorage" and "eventKey ev = Some (key p)"
    and "newValue ev = None \<or> newValue ev = Some []"
    and "newValue ev \<noteq> Some (serialize p (val h))"
  shows "dispatchStorageEvent p ev h w = (setValue (getDefaultValue (defaultValue p)) h, w)
       \<and> val (fst (dispatchStorageEvent p ev h w)) = getDefaultValue (defaultValue p)"
  using assms
  by (auto simp: dispatchStorageEvent_def storageChanged_def initFromStorage_def setValue_def)

theorem cleared_key_resets_to_default_witness:
  "val (fst (dispatchStorageEvent strProps (eventFor LocalStorage ''k'' (Some []))
               (hookOf strProps ''old value'') emptyWindow)) = ''initial value''
   \<and> val (fst (dispatchStorageEvent strProps (eventFor LocalStorage ''k'' None)
               (hookOf strProps ''old value'') emptyWindow)) = ''initial value''"
proof -
  let ?h = "hookOf strProps ''old value''"
  have p: "live strProps" "storage strProps = LocalStorage"
    by (simp_all add: strProps_def)
  have e1: "storageArea (eventFor LocalStorage ''k'' (Some [])) = Some LocalStorage"
    "eventKey (eventFor LocalStorage ''k'' (Some [])) = Some (key strProps)"
    "newValue (eventFor LocalStorage ''k'' (Some [])) = None
       \<or> newValue (eventFor LocalStorage ''k'' (Some [])) = Some []"
    "newValue (eventFor LocalStorage ''k'' (Some [])) \<noteq> Some (serialize strProps (val ?h))"
    by (simp_all add: eventFor_def strProps_def hookOf_def)
  have e2: "storageArea (eventFor LocalStorage ''k'' None) = Some LocalStorage"
    "eventKey (eventFor LocalStorage ''k'' None) = Some (key strProps)"
    "newValue (eventFor LocalStorage ''k'' None) = None
       \<or> newValue (eventFor LocalStorage ''k'' None) = Some []"
    "newValue (eventFor LocalStorage ''k'' None) \<noteq> Some (serialize strProps (val ?h))"
    by (simp_all add: eventFor_def strProps_def hookOf_def)
  have d: "getDefaultValue (defaultValue strProps) = ''initial value''"
    by (simp add: strProps_def)
  from cleared_key_resets_to_default [OF p e1, of emptyWindow]
       cleared_key_resets_to_default [OF p e2, of emptyWindow]
  show ?thesis by (simp add: d setValue_def)
qed

text \<open>
  C7 as stated fails when the current value itself serialises to the empty string: the
  event for the current key with an empty new value is taken for an echo, and the value
  stays the empty string although the default is \<open>initial value\<close>.
\<close>

theorem cleared_key_echo_counterexample:
  "live strProps
   \<and> storageArea (eventFor LocalStorage ''k'' (Some [])) = Some (storage strProps)
   \<and> eventKey (eventFor LocalStorage ''k'' (Some [])) = Some (key strProps)
   \<and> newValue (eventFor LocalStorage ''k'' (Some [])) = Some []
   \<and> getDefaultValue (defaultValue strProps) = ''initial value''
   \<and> val (fst (dispatchStorageEvent strProps (eventFor LocalStorage ''k'' (Some []))
                  (hookOf strProps []) emptyWindow)) = []"
  by (simp add: dispatchStorageEvent_def storageChanged_def strProps_def eventFor_def hookOf_def)

subsection \<open>Key migration\<close>

text \<open>
  After every render \<open>prevKeyRef\<close> holds the key of that render, as does the first
  component of the remembered dependencies.
\<close>

lemma mount_tracks_key:
  "prevKeyRef (fst (useStorage_mount p w)) = key p
   \<and> fst (deps (fst (useStorage_mount p w))) = key p"
  by (simp add: useStorage_mount_def commitEffect_def Let_def split: prod.splits)

lemma update_tracks_key:
  "prevKeyRef h = fst (deps h) \<Longrightarrow>
   prevKeyRef (fst (useStorage_update fresh p h w)) = key p
   \<and> fst (deps (fst (useStorage_update fresh p h w))) = key p"
  by (cases "deps h") (auto simp: useStorage_update_def commitEffect_def Let_def)

text \<open>
  C6. Let the last render have used the key \<open>K1\<close>, and let the next render use
  \<open>K2 \<noteq> K1\<close>. That render logs exactly two storage operations: the removal of \<open>K1\<close>,
  then the write of the serialised current value under \<open>K2\<close>. Afterwards \<open>K1\<close> is absent
  and \<open>K2\<close> holds the serialised value. A further render with the key \<open>K2\<close>, whatever the
  value has become and whether or not its effect runs, logs no removal.
\<close>

theorem key_migration:
  assumes "prevKeyRef h = K1" and "fst (deps h) = K1" and "key p = K2" and "K1 \<noteq> K2"
    and "key p' = K2" and "storage p' = storage p"
    and "useStorage_update fresh p h w = (h2, w2)"
    and "useStorage_update fresh' p' (setValue v h2) w2 = (h3, w3)"
  shows "stores w2 (storage p) K1 = None
       \<and> stores w2 (storage p) K2 = Some (serialize p (val h))
       \<and> val h2 = val h \<and> prevKeyRef h2 = K2
       \<and> log w2 = log w @ [RemoveItem (storage p) K1, SetItem (storage p) K2 (serialize p (val h))]
       \<and> filter is_remove (drop (length (log w2)) (log w3)) = []
       \<and> stores w3 (storage p) K1 = None"
  using assms
  by (cases "deps h")
     (auto simp: useStorage_update_def commitEffect_def setValue_def Let_def window_ops
           split: if_splits)

theorem key_migration_witness:
  "stores (snd (useStorage_update False nextKeyProps
             (fst (useStorage_mount strProps (seeded LocalStorage ''k'' ''pre saved'')))
             (snd (useStorage_mount strProps (seeded LocalStorage ''k'' ''pre saved'')))))
      LocalStorage ''k'' = None
   \<and> stores (snd (useStorage_update False nextKeyProps
             (fst (useStorage_mount strProps (seeded LocalStorage ''k'' ''pre saved'')))
             (snd (useStorage_mount strProps (seeded LocalStorage ''k'' ''pre saved'')))))
      LocalStorage ''changed-key'' = Some ''pre saved''"
proof -
  let ?m = "useStorage_mount strProps (seeded LocalStorage ''k'' ''pre saved'')"
  let ?u = "useStorage_update False nextKeyProps (fst ?m) (snd ?m)"
  let ?r = "useStorage_update False nextKeyProps (setValue ''x'' (fst ?u)) (snd ?u)"
  have k: "prevKeyRef (fst ?m) = ''k''" "fst (deps (fst ?m)) = ''k''"
    using mount_tracks_key [of strProps "seeded LocalStorage ''k'' ''pre saved''"]
    by (simp_all add: strProps_def)
  have n: "key nextKeyProps = ''changed-key''" "''k'' \<noteq> ''changed-key''"
    "storage nextKeyProps = storage nextKeyProps"
    by (simp_all add: nextKeyProps_def)
  have v: "val (fst ?m) = ''pre saved''"
    by (simp add: useStorage_mount_def initFromStorage_def commitEffect_def window_ops Let_def
          strProps_def seeded_def emptyWindow_def never_def)
  have s: "storage nextKeyProps = LocalStorage" "serialize nextKeyProps = (\<lambda>s. s)"
    by (simp_all add: nextKeyProps_def strProps_def)
  have u: "?u = (fst ?u, snd ?u)" and r: "?r = (fst ?r, snd ?r)"
    by simp_all
  from key_migration [OF k n(1) n(2) n(1) n(3) u r]
  show ?thesis by (simp add: v s)
qed

section \<open>Properties of the URL hook\<close>

subsection \<open>The inner storage hook and the query string\<close>

text \<open>
  The inner hook stores strings as they are and never fails to read one, so its first
  render leaves exactly the loaded value in the storage. Setting a query parameter makes
  it readable, leaves the other parameters alone and is idempotent.
\<close>

lemma storageProps_simps [simp]:
  "key (storageProps q w) = storageKey q w"
  "defaultValue (storageProps q w) = Plain (serializeState (param_defaultValue q))"
  "serialize (storageProps q w) s = s"
  "deserialize (storageProps q w) s = Inr s"
  "forceInit (storageProps q w) s = False"
  "live (storageProps q w) = False"
  by (simp_all add: storageProps_def serializeState_def never_def)

lemma storageKey_pathname [simp]:
  "storageKey q (w\<lparr>stores := st\<rparr>) = storageKey q w"
  "storageKey q (w\<lparr>search := ps\<rparr>) = storageKey q w"
  "storageKey q (w\<lparr>log := lg\<rparr>) = storageKey q w"
  "storageKey q (w\<lparr>back_entries := be\<rparr>) = storageKey q w"
  by (simp_all add: storageKey_def split: option.splits)

lemma storageProps_window [simp]:
  "storageProps q (w\<lparr>stores := st\<rparr>) = storageProps q w"
  "storageProps q (w\<lparr>search := ps\<rparr>) = storageProps q w"
  "storageProps q (w\<lparr>log := lg\<rparr>) = storageProps q w"
  "storageProps q (w\<lparr>back_entries := be\<rparr>) = storageProps q w"
  by (simp_all add: storageProps_def)

lemma useStorage_mount_url:
  "\<exists>lg. useStorage_mount (storageProps q w) w =
     (\<lparr>val = loaded q w, prevKeyRef = storageKey q w,
        deps = (storageKey q w, loaded q w, storage (storageProps q w))\<rparr>,
      w\<lparr>stores := (stores w)(storage (storageProps q w) :=
                    (stores w (storage (storageProps q w)))(storageKey q w \<mapsto> loaded q w)),
        log := log w @ lg\<rparr>) \<and> filter is_push lg = [] \<and> filter is_remove lg = []"
  by (auto simp: useStorage_mount_def initFromStorage_def commitEffect_def loaded_def window_ops Let_def
      split: option.splits)

lemma set_then_get [simp]: "URLSearchParams_get name (URLSearchParams_set name v ps) = Some v"
  by (induction ps) auto

lemma set_get_other: "n \<noteq> name \<Longrightarrow> URLSearchParams_get n (URLSearchParams_set name v ps) = URLSearchParams_get n ps"
proof (induction ps)
  case Nil
  then show ?case by simp
next
  case (Cons p ps)
  have "URLSearchParams_get n (filter (\<lambda>p. fst p \<noteq> name) xs) = URLSearchParams_get n xs" for xs
    using Cons.prems by (induction xs) auto
  with Cons show ?case by (cases p) auto
qed

lemma set_twice [simp]:
  "URLSearchParams_set name v (URLSearchParams_set name v ps) = URLSearchParams_set name v ps"
proof (induction ps)
  case Nil
  then show ?case by simp
next
  case (Cons p ps)
  have "filter (\<lambda>p. fst p \<noteq> name) (filter (\<lambda>p. fst p \<noteq> name) xs) = filter (\<lambda>p. fst p \<noteq> name) xs" for xs :: URLSearchParams
    by simp
  with Cons show ?case by (cases p) auto
qed

lemma set_changes: "URLSearchParams_get name ps \<noteq> Some v \<Longrightarrow> URLSearchParams_set name v ps \<noteq> ps"
  by (metis set_then_get)

lemmas url_hook_defs =
  useUrlStorageState_mount_def useUrlStorageState_update_def populateUrlEffect_def
  adoptUrlEffect_def pending_def navigate_def storageProps_def storageKey_def
  useStorage_mount_def useStorage_update_def commitEffect_def initFromStorage_def setValue_def
  serializeState_def never_def is_upper_def

subsection \<open>Reading a value back from the URL\<close>

lemma serializeState_other: "\<not> is_string v \<Longrightarrow> serializeState v = JSON_stringify v"
  by (cases v) (simp_all add: serializeState_def)

lemma stateMemo_structured:
  "wf_json v \<Longrightarrow> \<not> is_string v \<Longrightarrow> stateMemo dflt (Some (serializeState v)) = v"
  by (simp add: stateMemo_def serializeState_other stringify_nonempty JSON_parse_stringify)


lemma stateMemo_survives: "survives_url v \<Longrightarrow> stateMemo v (Some (serializeState v)) = v"
proof (cases "is_string v")
  case True
  assume "survives_url v"
  with True show ?thesis
    by (cases v) (auto simp: survives_url_def stateMemo_def serializeState_def)
next
  case False
  assume "survives_url v"
  with False have "wf_json v" by (cases v) (simp_all add: survives_url_def)
  from stateMemo_structured [OF this False] show ?thesis .
qed

lemma JSON_parse_default: "JSON_parse ''default'' = Inl SyntaxError"
  by (simp add: JSON_parse_def skip_ws_def is_ws_def literal_def strip_prefix_def parse_number_def is_digit_def)

lemma JSON_parse_123: "JSON_parse ''123'' = Inr (JNum 123)"
  by code_simp

subsection \<open>The URL parameter against the storage\<close>









lemma search_rendered:
  "rendered q b w \<Longrightarrow> rendered q b (w\<lparr>search := ps\<rparr>)"
  by (simp add: rendered_def split: prod.splits)

lemma adopted_twice [simp]: "adopted q ps (adopted q ps s) = adopted q ps s"
  by (simp add: adopted_def split: option.splits)

lemma update_rendered:
  assumes "rendered q b w"
  shows "rendered q (fst (useUrlStorageState_update q b w)) (snd (useUrlStorageState_update q b w))"
proof -
  obtain key0 s0 ps0 where sb: "seen b = (key0, s0, ps0)" by (cases "seen b") auto
  from assms sb show ?thesis
    by (auto simp: rendered_def useUrlStorageState_update_def useStorage_update_def commitEffect_def
          populateUrlEffect_def adoptUrlEffect_def adopted_def setValue_def navigate_def window_ops
          Let_def split: option.splits)
qed

lemma settle_rendered:
  "rendered q (fst bw) (snd bw) \<Longrightarrow> settle n q bw = Some r \<Longrightarrow> rendered q (fst r) (snd r)"
proof (induction n q bw rule: settle.induct)
  case (1 q bw)
  then show ?case by simp
next
  case (2 n q b w)
  show ?case
  proof (cases "pending b w")
    case True
    with 2 update_rendered [of q b w] show ?thesis by simp
  next
    case False
    with 2 show ?thesis by auto
  qed
qed

lemma settle_more: "settle n q bw = Some r \<Longrightarrow> settle (Suc n) q bw = Some r"
proof (induction n q bw rule: settle.induct)
  case (1 q bw)
  then show ?case by simp
next
  case (2 n q b w)
  then show ?case by (cases "pending b w") auto
qed






subsection \<open>The first mount on an empty storage and URL\<close>

text \<open>
  C4, as amended. With no storage entry at the derived key and no URL parameter
  \<open>kebab(K)\<close>, the first render returns \<open>defaultValue\<close>. The renders settle; then the
  storage holds \<open>serializeState(defaultValue)\<close> at the derived key, the URL has gained
  the parameter with that value and is otherwise unchanged, no history entry was added
  and no push navigation was logged. The current value is then the parameter read back,
  which is \<open>defaultValue\<close> whenever \<open>defaultValue\<close> survives the URL. The derived key
  is \<open><prefix>_<key>\<close> for a non-empty prefix and \<open>urlStorage_<pathname>_<key>\<close>
  otherwise.
\<close>

theorem first_mount_populates:
  assumes "URLSearchParams_get (kebabize (param_key q)) (search w) = None"
    and "stores w (storage (storageProps q w)) (storageKey q w) = None"
  shows "(param_prefix q = Some p \<and> p \<noteq> [] \<longrightarrow> storageKey q w = p @ ''_'' @ param_key q)
     \<and> (param_prefix q = None \<or> param_prefix q = Some [] \<longrightarrow>
          storageKey q w = ''urlStorage_'' @ pathname w @ ''_'' @ param_key q)
     \<and> currentState q w = param_defaultValue q
     \<and> (\<exists>b' w'. settle 2 q (useUrlStorageState_mount q w) = Some (b', w')
          \<and> stores w' (storage (storageProps q w)) (storageKey q w)
               = Some (serializeState (param_defaultValue q))
          \<and> search w' = URLSearchParams_set (kebabize (param_key q))
                            (serializeState (param_defaultValue q)) (search w)
          \<and> URLSearchParams_get (kebabize (param_key q)) (search w')
               = Some (serializeState (param_defaultValue q))
          \<and> back_entries w' = back_entries w
          \<and> filter is_push (drop (length (log w)) (log w')) = []
          \<and> currentState q w'
               = stateMemo (param_defaultValue q) (Some (serializeState (param_defaultValue q)))
          \<and> (survives_url (param_defaultValue q) \<longrightarrow> currentState q w' = param_defaultValue q))"
proof -
  let ?d = "serializeState (param_defaultValue q)"
  let ?kk = "kebabize (param_key q)"
  from useStorage_mount_url [of q w] obtain lg where
    m: "useStorage_mount (storageProps q w) w =
     (\<lparr>val = loaded q w, prevKeyRef = storageKey q w,
        deps = (storageKey q w, loaded q w, storage (storageProps q w))\<rparr>,
      w\<lparr>stores := (stores w)(storage (storageProps q w) :=
                    (stores w (storage (storageProps q w)))(storageKey q w \<mapsto> loaded q w)),
        log := log w @ lg\<rparr>)"
    and lg: "filter is_push lg = []"
    by blast
  have l: "loaded q w = ?d" using assms(2) by (simp add: loaded_def)
  have ne: "URLSearchParams_set ?kk ?d (search w) \<noteq> search w"
    using assms(1) by (intro set_changes) simp
  have first: "currentState q w = param_defaultValue q"
    using assms(1) by (simp add: currentState_def stateMemo_def)
  have sv: "survives_url (param_defaultValue q) \<Longrightarrow>
      stateMemo (param_defaultValue q) (Some ?d) = param_defaultValue q"
    by (rule stateMemo_survives)
  have key_given: "param_prefix q = Some p \<and> p \<noteq> [] \<longrightarrow> storageKey q w = p @ ''_'' @ param_key q"
    by (simp add: storageKey_def)
  have key_path: "param_prefix q = None \<or> param_prefix q = Some [] \<longrightarrow>
      storageKey q w = ''urlStorage_'' @ pathname w @ ''_'' @ param_key q"
    by (auto simp: storageKey_def)
  have settled: "currentState q w = param_defaultValue q
     \<and> (\<exists>b' w'. settle 2 q (useUrlStorageState_mount q w) = Some (b', w')
          \<and> stores w' (storage (storageProps q w)) (storageKey q w) = Some ?d
          \<and> search w' = URLSearchParams_set ?kk ?d (search w)
          \<and> URLSearchParams_get ?kk (search w') = Some ?d
          \<and> back_entries w' = back_entries w
          \<and> filter is_push (drop (length (log w)) (log w')) = []
          \<and> currentState q w' = stateMemo (param_defaultValue q) (Some ?d)
          \<and> (survives_url (param_defaultValue q) \<longrightarrow> currentState q w' = param_defaultValue q))"
  proof (cases "?d = []")
    case True
    with assms ne first sv lg show ?thesis
      by (simp add: numeral_2_eq_2 useUrlStorageState_mount_def m l populateUrlEffect_def
            adoptUrlEffect_def setValue_def pending_def useUrlStorageState_update_def
            useStorage_update_def navigate_def logged_def Let_def currentState_def)
  next
    case False
    with assms ne first sv lg show ?thesis
      by (simp add: numeral_2_eq_2 useUrlStorageState_mount_def m l populateUrlEffect_def
            adoptUrlEffect_def setValue_def pending_def useUrlStorageState_update_def
            useStorage_update_def navigate_def logged_def Let_def currentState_def)
  qed
  show ?thesis
    by (rule conjI [OF key_given conjI [OF key_path settled]])
qed

theorem first_mount_populates_witness:
  "stores (snd (mounted filtersParams emptyWindow)) LocalStorage ''urlStorage_/_filters''
     = Some (JSON_stringify (JObj [(''search'', JStr ''''), (''category'', JStr ''all'')]))
   \<and> search (snd (mounted filtersParams emptyWindow))
     = [(''filters'', JSON_stringify (JObj [(''search'', JStr ''''), (''category'', JStr ''all'')]))]
   \<and> currentState filtersParams (snd (mounted filtersParams emptyWindow))
     = JObj [(''search'', JStr ''''), (''category'', JStr ''all'')]"
proof -
  have a: "URLSearchParams_get (kebabize (param_key filtersParams)) (search emptyWindow) = None"
    and b: "stores emptyWindow (storage (storageProps filtersParams emptyWindow))
              (storageKey filtersParams emptyWindow) = None"
    by (simp_all add: emptyWindow_def)
  have k: "storage (storageProps filtersParams emptyWindow) = LocalStorage"
    "storageKey filtersParams emptyWindow = ''urlStorage_/_filters''"
    "kebabize (param_key filtersParams) = ''filters''"
    "search emptyWindow = []"
    by (simp_all add: storageProps_def storageKey_def filtersParams_def emptyWindow_def is_upper_def)
  have d: "param_defaultValue filtersParams = JObj [(''search'', JStr ''''), (''category'', JStr ''all'')]"
    by (simp add: filtersParams_def)
  have s: "survives_url (JObj [(''search'', JStr ''''), (''category'', JStr ''all'')])"
    by (simp add: survives_url_def)
  have z: "serializeState (JObj [(''search'', JStr ''''), (''category'', JStr ''all'')])
      = JSON_stringify (JObj [(''search'', JStr ''''), (''category'', JStr ''all'')])"
    by (simp add: serializeState_def)
  note t = first_mount_populates [OF a b, where p = "[]", THEN conjunct2, THEN conjunct2]
  from t s show ?thesis
    unfolding k d z by (auto simp: mounted_def simp del: JSON_stringify.simps)
qed

text \<open>
  C4 as stated fails for a string default that is JSON text: the default is the string
  \<open>123\<close>, and after settling the hook returns the number \<open>123\<close>.
\<close>

theorem json_like_default_counterexample:
  "URLSearchParams_get (kebabize (param_key numeralParams)) (search emptyWindow) = None
   \<and> stores emptyWindow LocalStorage (storageKey numeralParams emptyWindow) = None
   \<and> param_defaultValue numeralParams = JStr ''123''
   \<and> settle 2 numeralParams (useUrlStorageState_mount numeralParams emptyWindow) \<noteq> None
   \<and> currentState numeralParams (snd (mounted numeralParams emptyWindow)) = JNum 123"
  by (simp add: mounted_def numeral_2_eq_2 url_hook_defs window_ops numeralParams_def defaultParams_def
        emptyWindow_def Let_def currentState_def stateMemo_def JSON_parse_123)

subsection \<open>Updating through an updater function\<close>

text \<open>
  When the storage string parses, the updater is applied to the parsed value and the
  serialised result is pushed.
\<close>

lemma updateState_updater:
  "seen b = (k0, storageState, ps) \<Longrightarrow> JSON_parse storageState = Inr prev \<Longrightarrow>
   updateState q b (Updater f) w
     = Inr (navigate (URLSearchParams_set (kebabize (param_key q)) (serializeState (f prev)) ps) Push w)"
  by (simp add: updateState_def)

text \<open>
  C9 does not hold of the code. The hook is mounted with the string default
  \<open>default\<close>, so its storage string is \<open>default\<close>. Whatever the updater is,
  \<open>updateState\<close> ends with the \<open>SyntaxError\<close> of \<open>JSON.parse\<close>: the updater is not
  applied and nothing is navigated.
\<close>

theorem updater_fails_on_string_state:
  "seen (fst (mounted defaultParams emptyWindow)) = (''key'', ''default'', [(''key'', ''default'')])
   \<and> updateState defaultParams (fst (mounted defaultParams emptyWindow)) (Updater f)
         (snd (mounted defaultParams emptyWindow)) = Inl SyntaxError"
proof -
  have s: "seen (fst (mounted defaultParams emptyWindow)) = (''key'', ''default'', [(''key'', ''default'')])"
    by (simp add: mounted_def numeral_2_eq_2 url_hook_defs window_ops defaultParams_def
          emptyWindow_def Let_def)
  show ?thesis
    by (simp add: s updateState_def JSON_parse_default)
qed

subsection \<open>Round trips\<close>




end
